theory Spec2Isabelle
  imports Main "HOL-Library.Char_ord" "HOL-Library.List_Lexorder" "HOL-Library.Multiset"
begin

section \<open>Symbols, rules and grammars (lark/parsers/cyk.py)\<close>

text \<open>
  Python exceptions that the modelled functions can raise are values of this type.
\<close>

datatype error = ParseError | AssertionError | IndexError | KeyError | AttributeError

text \<open>
  \<^verbatim>\<open>class Symbol\<close> with its two subclasses \<^verbatim>\<open>T\<close> and \<^verbatim>\<open>NT\<close>. The field
  \<^verbatim>\<open>s\<close> is the string; \<^verbatim>\<open>__eq__\<close> compares \<^verbatim>\<open>str(self)\<close> and the class, which is
  the structural equality of this datatype.
\<close>

datatype symbol = T string | NT string

fun symbol_str :: "symbol \<Rightarrow> string" where
  "symbol_str (T s) = s"
| "symbol_str (NT s) = s"

fun isinstance_T :: "symbol \<Rightarrow> bool" where
  "isinstance_T (T s) = True"
| "isinstance_T (NT s) = False"

fun isinstance_NT :: "symbol \<Rightarrow> bool" where
  "isinstance_NT (NT s) = True"
| "isinstance_NT (T s) = False"

text \<open>
  \<^verbatim>\<open>class Rule\<close> and its subclass \<^verbatim>\<open>UnitSkipRule\<close>, which adds the field
  \<^verbatim>\<open>skipped_rules\<close>. Weights are Python integers.
\<close>

datatype rule =
    Rule (lhs: symbol) (rhs: "symbol list") (weight: int) (rule_alias: string)
  | UnitSkipRule (lhs: symbol) (rhs: "symbol list") (skipped_rules: "rule list")
      (weight: int) (rule_alias: string)

fun isinstance_UnitSkipRule :: "rule \<Rightarrow> bool" where
  "isinstance_UnitSkipRule (UnitSkipRule l r sk w a) = True"
| "isinstance_UnitSkipRule (Rule l r w a) = False"

text \<open>
  The skip chain of a rule: \<^verbatim>\<open>rule.skipped_rules\<close> when the rule is a
  \<^verbatim>\<open>UnitSkipRule\<close>, nothing otherwise (the two \<^verbatim>\<open>isinstance\<close> tests of
  \<^verbatim>\<open>BuildUnitSkipRule\<close>).
\<close>

fun skip_chain :: "rule \<Rightarrow> rule list" where
  "skip_chain (UnitSkipRule l r sk w a) = sk"
| "skip_chain (Rule l r w a) = []"

text \<open>
  The operator \<^verbatim>\<open>r1 == r2\<close> on rules. \<^verbatim>\<open>Rule.__eq__\<close> compares \<^verbatim>\<open>lhs\<close> and
  \<^verbatim>\<open>rhs\<close>; \<^verbatim>\<open>UnitSkipRule.__eq__\<close> is
  \<^verbatim>\<open>super().__eq__(other) and isinstance(other, type(self)) and
  self.skipped_rules == other.skipped_rules\<close>. When the left operand is a plain
  \<^verbatim>\<open>Rule\<close> and the right one a \<^verbatim>\<open>UnitSkipRule\<close>, Python tries the method of the
  right operand first (its class is a subclass of the left operand's class and overrides
  the method), which answers \<^verbatim>\<open>False\<close>. The two lists of skipped rules are compared
  element by element with the same operator.
\<close>

fun rule_eq :: "rule \<Rightarrow> rule \<Rightarrow> bool" where
  "rule_eq (Rule l r w a) (Rule l' r' w' a') = (l = l' \<and> r = r')"
| "rule_eq (Rule l r w a) (UnitSkipRule l' r' sk' w' a') = False"
| "rule_eq (UnitSkipRule l r sk w a) (Rule l' r' w' a') = False"
| "rule_eq (UnitSkipRule l r sk w a) (UnitSkipRule l' r' sk' w' a') =
     (l = l' \<and> r = r' \<and> list_all2 rule_eq sk sk')"

text \<open>
  The method \<^verbatim>\<open>Rule.__eq__\<close> itself, as \<^verbatim>\<open>super(UnitSkipRule, self).__eq__\<close>
  calls it.
\<close>

definition Rule_eq_method :: "rule \<Rightarrow> rule \<Rightarrow> bool" where
  "Rule_eq_method self other = (lhs self = lhs other \<and> rhs self = rhs other)"

text \<open>\<^verbatim>\<open>' '.join(strs)\<close> and its generalisation to any separator.\<close>

fun join :: "string \<Rightarrow> string list \<Rightarrow> string" where
  "join sep [] = []"
| "join sep [x] = x"
| "join sep (x # y # ys) = x @ sep @ join sep (y # ys)"

text \<open>\<^verbatim>\<open>Rule.__str__\<close>: \<^verbatim>\<open>'%s -> %s' % (str(lhs), ' '.join(str(x) for x in rhs))\<close>.\<close>

definition rule_str :: "rule \<Rightarrow> string" where
  "rule_str r = symbol_str (lhs r) @ '' -> '' @ join '' '' (map symbol_str (rhs r))"

text \<open>
  \<^verbatim>\<open>class Grammar\<close>: the constructor sorts the rules by their string; Python's
  \<^verbatim>\<open>sorted\<close> is stable, as \<open>sort_key\<close> is.
\<close>

record grammar =
  rules :: "rule list"

definition Grammar :: "rule list \<Rightarrow> grammar" where
  "Grammar rs = \<lparr>rules = sort_key rule_str rs\<rparr>"

section \<open>Conversion to Chomsky normal form\<close>

text \<open>\<^verbatim>\<open>BuildUnitSkipRule(unit_rule, target_rule)\<close>.\<close>

definition BuildUnitSkipRule :: "rule \<Rightarrow> rule \<Rightarrow> rule" where
  "BuildUnitSkipRule unit_rule target_rule =
     UnitSkipRule (lhs unit_rule) (rhs target_rule)
       (skip_chain unit_rule @ [target_rule] @ skip_chain target_rule)
       (weight unit_rule + weight target_rule) (rule_alias unit_rule)"

text \<open>
  \<^verbatim>\<open>GetAnyNtUnitRule(g)\<close>: the first rule, in the order of \<^verbatim>\<open>g.rules\<close>, whose
  rhs is one non-terminal.
\<close>

definition is_nt_unit_rule :: "rule \<Rightarrow> bool" where
  "is_nt_unit_rule r = (case rhs r of [x] \<Rightarrow> isinstance_NT x | _ \<Rightarrow> False)"

definition GetAnyNtUnitRule :: "grammar \<Rightarrow> rule option" where
  "GetAnyNtUnitRule g = find is_nt_unit_rule (rules g)"

text \<open>
  \<^verbatim>\<open>RemoveUnitRule(g, rule)\<close>. \<^verbatim>\<open>rule.rhs[0]\<close> raises \<^verbatim>\<open>IndexError\<close> on an
  empty rhs; \<^verbatim>\<open>x != rule\<close> is the negation of \<^verbatim>\<open>==\<close>.
\<close>

definition RemoveUnitRule :: "grammar \<Rightarrow> rule \<Rightarrow> error + grammar" where
  "RemoveUnitRule g rule =
     (case rhs rule of
        [] \<Rightarrow> Inl IndexError
      | b # _ \<Rightarrow>
          (let new_rules = filter (\<lambda>x. \<not> rule_eq x rule) (rules g);
               refs = filter (\<lambda>x. lhs x = b) (rules g)
           in Inr (Grammar (new_rules @ map (BuildUnitSkipRule rule) refs))))"

text \<open>
  \<^verbatim>\<open>Unit(g)\<close>: the loop runs as long as a non-terminal unit rule is left, so it is a
  partial function; \<open>None\<close> is the loop that never ends.
\<close>

partial_function (option) Unit :: "grammar \<Rightarrow> (error + grammar) option" where
  "Unit g =
     (case GetAnyNtUnitRule g of
        None \<Rightarrow> Some (Inr g)
      | Some nt_unit_rule \<Rightarrow>
          (case RemoveUnitRule g nt_unit_rule of
             Inl e \<Rightarrow> Some (Inl e)
           | Inr g' \<Rightarrow> Unit g'))"

declare Unit.simps [code]

text \<open>Decimal rendering of a natural number, as \<^verbatim>\<open>'%d'\<close> formats it.\<close>

definition digit_char :: "nat \<Rightarrow> char" where
  "digit_char d = char_of (48 + d)"

fun str_nat :: "nat \<Rightarrow> string" where
  "str_nat n = (if n < 10 then [digit_char n] else str_nat (n div 10) @ [digit_char (n mod 10)])"

declare str_nat.simps [simp del]

text \<open>
  \<^verbatim>\<open>Split(rule)\<close>, which \<^verbatim>\<open>Bin\<close> calls on rules with more than two symbols on
  their rhs only; \<^verbatim>\<open>rule.rhs[-2:]\<close> is the list of the last two symbols.
\<close>

definition split_name :: "rule \<Rightarrow> nat \<Rightarrow> string" where
  "split_name rule i =
     ''__SP_'' @ (symbol_str (lhs rule) @ ''__'' @ join ''_'' (map symbol_str (rhs rule)))
       @ ''_'' @ str_nat i"

definition Split :: "rule \<Rightarrow> rule list" where
  "Split rule =
     [Rule (lhs rule) [rhs rule ! 0, NT (split_name rule 1)] (weight rule) (rule_alias rule)]
     @ map (\<lambda>i. Rule (NT (split_name rule i)) [rhs rule ! i, NT (split_name rule (i + 1))]
                 0 ''Split'')
         [1 ..< length (rhs rule) - 2]
     @ [Rule (NT (split_name rule (length (rhs rule) - 2)))
          (drop (length (rhs rule) - 2) (rhs rule)) 0 ''Split'']"

text \<open>
  \<^verbatim>\<open>Term(g)\<close>. \<^verbatim>\<open>all_t\<close> is a set and \<^verbatim>\<open>t_rules\<close> a dictionary keyed by the
  terminals; they are listed here in the order of first occurrence.
\<close>

definition all_t :: "grammar \<Rightarrow> symbol list" where
  "all_t g = remdups (filter isinstance_T (concat (map rhs (rules g))))"

definition t_rule :: "symbol \<Rightarrow> rule" where
  "t_rule t = Rule (NT (''__T_'' @ symbol_str t)) [t] 0 ''Term''"

definition needs_term :: "rule \<Rightarrow> bool" where
  "needs_term rule = (length (rhs rule) > 1 \<and> (\<exists>x \<in> set (rhs rule). isinstance_T x))"

definition Term_step :: "symbol list \<Rightarrow> rule \<Rightarrow> rule list" where
  "Term_step ts rule =
     (if needs_term rule
      then Rule (lhs rule) (map (\<lambda>x. if isinstance_T x then lhs (t_rule x) else x) (rhs rule))
             (weight rule) (rule_alias rule)
           # map t_rule (filter (\<lambda>k. k \<in> set (rhs rule)) ts)
      else [rule])"

definition Term :: "grammar \<Rightarrow> grammar" where
  "Term g = Grammar (concat (map (Term_step (all_t g)) (rules g)))"

text \<open>\<^verbatim>\<open>Bin(g)\<close>.\<close>

definition Bin :: "grammar \<Rightarrow> grammar" where
  "Bin g = Grammar (concat (map (\<lambda>rule. if length (rhs rule) > 2 then Split rule else [rule])
                              (rules g)))"

text \<open>
  \<^verbatim>\<open>class CnfWrapper\<close>. The two \<^verbatim>\<open>defaultdict(list)\<close> indexes are association
  lists in the order in which their keys were first inserted; \<open>dict_append\<close> is
  \<^verbatim>\<open>d[k].append(v)\<close>. The key \<^verbatim>\<open>tuple(r.rhs)\<close> of a rhs of length two is a pair.
\<close>

fun dict_append :: "'k \<Rightarrow> 'v \<Rightarrow> ('k \<times> 'v list) list \<Rightarrow> ('k \<times> 'v list) list" where
  "dict_append k v [] = [(k, [v])]"
| "dict_append k v ((k', vs) # d) =
     (if k = k' then (k', vs @ [v]) # d else (k', vs) # dict_append k v d)"

type_synonym terminal_index = "(symbol \<times> rule list) list"
type_synonym nonterminal_index = "((symbol \<times> symbol) \<times> rule list) list"

record cnf_wrapper =
  cnf_grammar :: grammar
  terminal_rules :: terminal_index
  nonterminal_rules :: nonterminal_index

text \<open>The body of the loop of \<^verbatim>\<open>CnfWrapper.__init__\<close>, with its three assertions.\<close>

fun CnfWrapper_loop ::
  "rule list \<Rightarrow> terminal_index \<times> nonterminal_index
     \<Rightarrow> error + (terminal_index \<times> nonterminal_index)" where
  "CnfWrapper_loop [] acc = Inr acc"
| "CnfWrapper_loop (r # rs) (tr, ntr) =
     (if \<not> isinstance_NT (lhs r) then Inl AssertionError
      else if \<not> (length (rhs r) = 1 \<or> length (rhs r) = 2) then Inl AssertionError
      else if length (rhs r) = 1 \<and> isinstance_T (rhs r ! 0)
        then CnfWrapper_loop rs (dict_append (rhs r ! 0) r tr, ntr)
      else if length (rhs r) = 2 \<and> list_all isinstance_NT (rhs r)
        then CnfWrapper_loop rs (tr, dict_append (rhs r ! 0, rhs r ! 1) r ntr)
      else Inl AssertionError)"

definition CnfWrapper :: "grammar \<Rightarrow> error + cnf_wrapper" where
  "CnfWrapper g =
     (case CnfWrapper_loop (rules g) ([], []) of
        Inl e \<Rightarrow> Inl e
      | Inr (tr, ntr) \<Rightarrow>
          Inr \<lparr>cnf_grammar = g, terminal_rules = tr, nonterminal_rules = ntr\<rparr>)"

text \<open>
  \<^verbatim>\<open>ToCnf(g)\<close> is \<^verbatim>\<open>CnfWrapper(Unit(Bin(Term(g))))\<close>; \<open>None\<close> when the loop of
  \<^verbatim>\<open>Unit\<close> does not end.
\<close>

definition ToCnf :: "grammar \<Rightarrow> (error + cnf_wrapper) option" where
  "ToCnf g =
     (case Unit (Bin (Term g)) of
        None \<Rightarrow> None
      | Some (Inl e) \<Rightarrow> Some (Inl e)
      | Some (Inr g') \<Rightarrow> Some (CnfWrapper g'))"

text \<open>The shape that \<^verbatim>\<open>CnfWrapper\<close> validates, rule by rule.\<close>

definition cnf_rule :: "rule \<Rightarrow> bool" where
  "cnf_rule r =
     (isinstance_NT (lhs r) \<and>
      (case rhs r of
         [x] \<Rightarrow> isinstance_T x
       | [x, y] \<Rightarrow> isinstance_NT x \<and> isinstance_NT y
       | _ \<Rightarrow> False))"

section \<open>Terminal matching\<close>

text \<open>
  \<^verbatim>\<open>T.__init__\<close> compiles the string of the terminal with Python's \<^verbatim>\<open>re\<close> module,
  which is not part of this repository. A compiled pattern is modelled as a value of
  \<open>regex\<close>, for the fragment of literal characters, concatenation, alternation and the
  greedy \<^verbatim>\<open>+\<close>; the parser from pattern strings to compiled patterns is a parameter
  \<open>re_compile\<close> of everything that matches.

  \<open>backtrack r s\<close> lists, in the order in which the backtracking matcher of \<^verbatim>\<open>re\<close>
  tries them, the rests of \<open>s\<close> that remain after a match of \<open>r\<close> at the start of
  \<open>s\<close>: an alternation tries its left branch first, a greedy repetition tries one more
  round before it stops. \<^verbatim>\<open>regexp.match(s)\<close> returns the first of them.
\<close>

datatype regex = Lit char | Seq regex regex | Alt regex regex | Plus regex

fun backtrack :: "regex \<Rightarrow> string \<Rightarrow> string list" where
  "backtrack (Lit c) s = (case s of [] \<Rightarrow> [] | x # xs \<Rightarrow> if x = c then [xs] else [])"
| "backtrack (Seq a b) s = concat (map (backtrack b) (backtrack a s))"
| "backtrack (Alt a b) s = backtrack a s @ backtrack b s"
| "backtrack (Plus a) s =
     concat (map (\<lambda>s'. (if length s' < length s then backtrack (Plus a) s' else []) @ [s'])
                 (backtrack a s))"

declare backtrack.simps(4) [simp del]

text \<open>
  \<^verbatim>\<open>regexp.match(s)\<close>: the length of \<^verbatim>\<open>m.group(0)\<close> for the match object, or
  \<open>None\<close>.
\<close>

definition re_match :: "regex \<Rightarrow> string \<Rightarrow> nat option" where
  "re_match r s =
     (case backtrack r s of [] \<Rightarrow> None | rest # _ \<Rightarrow> Some (length s - length rest))"

text \<open>
  \<^verbatim>\<open>T.match(self, s)\<close>: \<^verbatim>\<open>bool(m) and len(m.group(0)) == len(s)\<close>; a match object
  is always true.
\<close>

definition T_match :: "(string \<Rightarrow> regex) \<Rightarrow> symbol \<Rightarrow> string \<Rightarrow> bool" where
  "T_match re_compile t s =
     (case re_match (re_compile (symbol_str t)) s of
        None \<Rightarrow> False
      | Some n \<Rightarrow> n = length s)"

text \<open>The strings that a pattern matches in their entirety.\<close>

inductive full_match :: "regex \<Rightarrow> string \<Rightarrow> bool" where
  fm_Lit: "full_match (Lit c) [c]"
| fm_Seq: "full_match a u \<Longrightarrow> full_match b v \<Longrightarrow> full_match (Seq a b) (u @ v)"
| fm_AltL: "full_match a u \<Longrightarrow> full_match (Alt a b) u"
| fm_AltR: "full_match b u \<Longrightarrow> full_match (Alt a b) u"
| fm_Plus1: "full_match a u \<Longrightarrow> full_match (Plus a) u"
| fm_PlusS: "full_match a u \<Longrightarrow> full_match (Plus a) v \<Longrightarrow> full_match (Plus a) (u @ v)"

section \<open>The CYK table builder\<close>

text \<open>
  Parse trees: a child of a \<^verbatim>\<open>RuleNode\<close> is another \<^verbatim>\<open>RuleNode\<close> or the terminal
  \<^verbatim>\<open>T(w)\<close> built from a token. \<^verbatim>\<open>RuleNode(rule, children, weight)\<close> keeps its three
  fields. Only the weights of \<^verbatim>\<open>RuleNode\<close>s are ever read.
\<close>

datatype tree = Leaf symbol | RuleNode rule "tree list" int

fun node_weight :: "tree \<Rightarrow> int" where
  "node_weight (RuleNode r cs w) = w"
| "node_weight (Leaf t) = 0"

text \<open>
  A loop whose body can raise: the first error ends it.
\<close>

fun foldM :: "('a \<Rightarrow> 's \<Rightarrow> error + 's) \<Rightarrow> 'a list \<Rightarrow> 's \<Rightarrow> error + 's" where
  "foldM f [] st = Inr st"
| "foldM f (x # xs) st = (case f x st of Inl e \<Rightarrow> Inl e | Inr st' \<Rightarrow> foldM f xs st')"

text \<open>
  \<^verbatim>\<open>table\<close> is a \<^verbatim>\<open>defaultdict(set)\<close> from spans to sets of rules and \<^verbatim>\<open>trees\<close> a
  \<^verbatim>\<open>defaultdict(dict)\<close> from spans to dictionaries from non-terminals to trees. A cell
  of the table lists its rules in the order in which they were added; \<open>set_add\<close> is
  \<^verbatim>\<open>set.add\<close>, which keeps the element that is there when an equal one is added.
\<close>

type_synonym span = "int \<times> int"
type_synonym cyk_table = "span \<Rightarrow> rule list"
type_synonym cyk_trees = "span \<Rightarrow> symbol \<Rightarrow> tree option"

definition set_add :: "rule \<Rightarrow> rule list \<Rightarrow> rule list" where
  "set_add r xs = (if \<exists>x \<in> set xs. rule_eq x r then xs else xs @ [r])"

text \<open>
  The update of \<^verbatim>\<open>trees[span][rule.lhs]\<close> that both loops of \<^verbatim>\<open>_Parse\<close> make: the
  new node replaces the stored one when there is none or when its weight is strictly
  lower.
\<close>

definition store_tree :: "span \<Rightarrow> rule \<Rightarrow> tree list \<Rightarrow> int \<Rightarrow> cyk_trees \<Rightarrow> cyk_trees" where
  "store_tree sp rule cs w trees =
     (case trees sp (lhs rule) of
        None \<Rightarrow> trees(sp := (trees sp)(lhs rule \<mapsto> RuleNode rule cs w))
      | Some t \<Rightarrow>
          if w < node_weight t then trees(sp := (trees sp)(lhs rule \<mapsto> RuleNode rule cs w))
          else trees)"

text \<open>The first loop of \<^verbatim>\<open>_Parse\<close>: the terminal rules that match each token.\<close>

definition Parse_base_rule ::
  "int \<Rightarrow> string \<Rightarrow> rule \<Rightarrow> cyk_table \<times> cyk_trees \<Rightarrow> cyk_table \<times> cyk_trees" where
  "Parse_base_rule i w rule st =
     (case st of (table, trees) \<Rightarrow>
        (table((i, i) := set_add rule (table (i, i))),
         store_tree (i, i) rule [Leaf (T w)] (weight rule) trees))"

definition Parse_base ::
  "(string \<Rightarrow> regex) \<Rightarrow> string list \<Rightarrow> cnf_wrapper \<Rightarrow> cyk_table \<times> cyk_trees" where
  "Parse_base re_compile s g =
     fold (\<lambda>(i, w) st.
             fold (\<lambda>(terminal, rs) st.
                     if T_match re_compile terminal w then fold (Parse_base_rule i w) rs st
                     else st)
                  (terminal_rules g) st)
          (zip (map int [0 ..< length s]) s)
          (\<lambda>sp. [], \<lambda>sp. Map.empty)"

text \<open>
  The body of the innermost loop. \<^verbatim>\<open>trees[span1][r1.lhs]\<close> raises \<^verbatim>\<open>KeyError\<close>
  when the key is missing.
\<close>

definition Parse_rule ::
  "span \<Rightarrow> span \<Rightarrow> span \<Rightarrow> rule \<Rightarrow> rule \<Rightarrow> rule \<Rightarrow> cyk_table \<times> cyk_trees
     \<Rightarrow> error + (cyk_table \<times> cyk_trees)" where
  "Parse_rule sp span1 span2 r1 r2 rule st =
     (case st of (table, trees) \<Rightarrow>
        (case trees span1 (lhs r1) of
           None \<Rightarrow> Inl KeyError
         | Some r1_tree \<Rightarrow>
             (case trees span2 (lhs r2) of
                None \<Rightarrow> Inl KeyError
              | Some r2_tree \<Rightarrow>
                  Inr (table(sp := set_add rule (table sp)),
                       store_tree sp rule [r1_tree, r2_tree]
                         (weight rule + node_weight r1_tree + node_weight r2_tree) trees))))"

text \<open>\<^verbatim>\<open>g.nonterminal_rules.get((r1.lhs, r2.lhs), [])\<close>.\<close>

definition nonterminal_get :: "cnf_wrapper \<Rightarrow> symbol \<times> symbol \<Rightarrow> rule list" where
  "nonterminal_get g k = (case map_of (nonterminal_rules g) k of None \<Rightarrow> [] | Some rs \<Rightarrow> rs)"

text \<open>
  The loops over the partition point \<open>p\<close>, the start \<open>i\<close> and the length \<open>l\<close>.
  \<^verbatim>\<open>itertools.product\<close> reads the two cells when the loop over the pairs starts.
\<close>

definition Parse_p ::
  "cnf_wrapper \<Rightarrow> int \<Rightarrow> int \<Rightarrow> int \<Rightarrow> cyk_table \<times> cyk_trees
     \<Rightarrow> error + (cyk_table \<times> cyk_trees)" where
  "Parse_p g l i p st =
     foldM (\<lambda>(r1, r2). foldM (Parse_rule (i, i + l - 1) (i, p - 1) (p, i + l - 1) r1 r2)
                              (nonterminal_get g (lhs r1, lhs r2)))
           (List.product (fst st (i, p - 1)) (fst st (p, i + l - 1))) st"

definition Parse_i ::
  "cnf_wrapper \<Rightarrow> int \<Rightarrow> int \<Rightarrow> cyk_table \<times> cyk_trees \<Rightarrow> error + (cyk_table \<times> cyk_trees)" where
  "Parse_i g l i st = foldM (Parse_p g l i) [i + 1 .. i + l - 1] st"

definition Parse_l ::
  "cnf_wrapper \<Rightarrow> int \<Rightarrow> int \<Rightarrow> cyk_table \<times> cyk_trees \<Rightarrow> error + (cyk_table \<times> cyk_trees)" where
  "Parse_l g n l st = foldM (Parse_i g l) [0 .. n - l] st"

text \<open>\<^verbatim>\<open>_Parse(s, g)\<close>.\<close>

definition Parse ::
  "(string \<Rightarrow> regex) \<Rightarrow> string list \<Rightarrow> cnf_wrapper \<Rightarrow> error + (cyk_table \<times> cyk_trees)" where
  "Parse re_compile s g =
     foldM (Parse_l g (int (length s))) [2 .. int (length s)] (Parse_base re_compile s g)"

section \<open>Reverting a parse tree to the original grammar\<close>

definition startswith :: "string \<Rightarrow> string \<Rightarrow> bool" where
  "startswith s p = (take (length p) s = p)"

text \<open>\<^verbatim>\<open>UnrollUnitSkipRule(lhs, orig_rhs, skipped_rules, children, weight, alias)\<close>.\<close>

fun UnrollUnitSkipRule ::
  "symbol \<Rightarrow> symbol list \<Rightarrow> rule list \<Rightarrow> tree list \<Rightarrow> int \<Rightarrow> string \<Rightarrow> tree" where
  "UnrollUnitSkipRule l orig_rhs [] children w a = RuleNode (Rule l orig_rhs w a) children w"
| "UnrollUnitSkipRule l orig_rhs (sr # rest) children w a =
     RuleNode (Rule l [lhs sr] (w - weight sr) a)
       [UnrollUnitSkipRule (lhs sr) orig_rhs rest children (weight sr) (rule_alias sr)]
       (w - weight sr)"

text \<open>
  The loop of \<^verbatim>\<open>RevertCnf\<close> that splices the children of a split node into the list
  of children.
\<close>

fun revert_bin :: "tree \<Rightarrow> tree list" where
  "revert_bin (RuleNode r cs w) =
     (if startswith (symbol_str (lhs r)) ''__SP_'' then cs else [RuleNode r cs w])"
| "revert_bin (Leaf t) = [Leaf t]"

text \<open>
  \<^verbatim>\<open>RevertCnf(node)\<close>; \<open>RevertCnf_list\<close> is the list comprehension over the children.
  \<^verbatim>\<open>node.children[0]\<close> raises \<^verbatim>\<open>IndexError\<close> on a node without children, and
  \<^verbatim>\<open>RuleNode(node.rule, children)\<close> has the default weight 0.
\<close>

fun RevertCnf :: "tree \<Rightarrow> error + tree"
  and RevertCnf_list :: "tree list \<Rightarrow> error + tree list" where
  "RevertCnf (Leaf t) = Inr (Leaf t)"
| "RevertCnf (RuleNode rule children w) =
     (if startswith (symbol_str (lhs rule)) ''__T_'' then
        (case children of [] \<Rightarrow> Inl IndexError | c # _ \<Rightarrow> Inr c)
      else
        (case RevertCnf_list children of
           Inl e \<Rightarrow> Inl e
         | Inr reverted_children \<Rightarrow>
             (let children' = concat (map revert_bin reverted_children) in
              if isinstance_UnitSkipRule rule
              then Inr (UnrollUnitSkipRule (lhs rule) (rhs rule) (skip_chain rule) children'
                          (weight rule) (rule_alias rule))
              else Inr (RuleNode rule children' 0))))"
| "RevertCnf_list [] = Inr []"
| "RevertCnf_list (x # xs) =
     (case RevertCnf x of
        Inl e \<Rightarrow> Inl e
      | Inr y \<Rightarrow> (case RevertCnf_list xs of Inl e \<Rightarrow> Inl e | Inr ys \<Rightarrow> Inr (y # ys)))"

section \<open>The parser wrapper\<close>

text \<open>
  Modelled from the spec: the rule objects, tokens and trees of the surrounding library
  (\<^verbatim>\<open>..common\<close>, \<^verbatim>\<open>..lexer\<close>, \<^verbatim>\<open>..tree\<close>), which this module imports. A raw rule has
  an origin (a non-terminal name), an expansion (an ordered list of symbols, each a
  terminal carrying its pattern in \<^verbatim>\<open>data\<close> or the name of a non-terminal), an alias
  and an optional priority. A token pairs a type with a string value; a tree has the
  origin of a rule, ordered children (trees or tokens) and the rule.
\<close>

datatype lark_symbol = Terminal_Regexp string string | Terminal string | Name string

record lark_rule =
  origin :: string
  expansion :: "lark_symbol list"
  lark_alias :: string
  priority :: "int option"

datatype lark_tree = Tree string "lark_tree list" lark_rule | Token lark_symbol string

text \<open>\<^verbatim>\<open>class Parser\<close>; \<^verbatim>\<open>orig_rules\<close> is the dictionary from aliases to raw rules.\<close>

record parser =
  orig_rules :: "string \<Rightarrow> lark_rule option"
  parser_grammar :: cnf_wrapper
  start :: symbol

text \<open>\<^verbatim>\<open>Parser._ToRule(lark_rule)\<close>.\<close>

definition ToRule :: "lark_rule \<Rightarrow> rule" where
  "ToRule lr =
     Rule (NT (origin lr))
       (map (\<lambda>x. case x of Terminal_Regexp n d \<Rightarrow> T d | Terminal d \<Rightarrow> T d | Name y \<Rightarrow> NT y)
            (expansion lr))
       (case priority lr of None \<Rightarrow> 0 | Some pr \<Rightarrow> if pr \<noteq> 0 then pr else 0)
       (lark_alias lr)"

text \<open>
  \<^verbatim>\<open>Parser.__init__(rules, start)\<close>; in the dictionary comprehension a later rule
  overrides an earlier one with the same alias.
\<close>

definition Parser_init :: "lark_rule list \<Rightarrow> string \<Rightarrow> (error + parser) option" where
  "Parser_init lark_rules start_name =
     (case ToCnf (Grammar (map ToRule lark_rules)) of
        None \<Rightarrow> None
      | Some (Inl e) \<Rightarrow> Some (Inl e)
      | Some (Inr w) \<Rightarrow>
          Some (Inr \<lparr>orig_rules = map_of (rev (map (\<lambda>r. (lark_alias r, r)) lark_rules)),
                     parser_grammar = w,
                     start = NT start_name\<rparr>))"

text \<open>
  \<^verbatim>\<open>Parser._ToTree(rule_node)\<close>; \<open>ToTree_children\<close> is its loop over the enumerated
  children. A terminal has no attribute \<^verbatim>\<open>rule\<close>, a missing alias is a \<^verbatim>\<open>KeyError\<close>
  and \<^verbatim>\<open>orig_rule.expansion[i]\<close> raises \<^verbatim>\<open>IndexError\<close> beyond the expansion.
\<close>

fun ToTree :: "parser \<Rightarrow> tree \<Rightarrow> error + lark_tree"
  and ToTree_children :: "parser \<Rightarrow> lark_rule \<Rightarrow> nat \<Rightarrow> tree list \<Rightarrow> error + lark_tree list" where
  "ToTree p (Leaf t) = Inl AttributeError"
| "ToTree p (RuleNode rule children w) =
     (case orig_rules p (rule_alias rule) of
        None \<Rightarrow> Inl KeyError
      | Some orig_rule \<Rightarrow>
          (case ToTree_children p orig_rule 0 children of
             Inl e \<Rightarrow> Inl e
           | Inr cs \<Rightarrow> Inr (Tree (origin orig_rule) cs orig_rule)))"
| "ToTree_children p orig_rule i [] = Inr []"
| "ToTree_children p orig_rule i (RuleNode rule children w # rest) =
     (case ToTree p (RuleNode rule children w) of
        Inl e \<Rightarrow> Inl e
      | Inr c \<Rightarrow>
          (case ToTree_children p orig_rule (i + 1) rest of
             Inl e \<Rightarrow> Inl e
           | Inr cs \<Rightarrow> Inr (c # cs)))"
| "ToTree_children p orig_rule i (Leaf t # rest) =
     (if i < length (expansion orig_rule)
      then (case ToTree_children p orig_rule (i + 1) rest of
              Inl e \<Rightarrow> Inl e
            | Inr cs \<Rightarrow> Inr (Token (expansion orig_rule ! i) (symbol_str t) # cs))
      else Inl IndexError)"

text \<open>
  \<^verbatim>\<open>Parser.parse(tokenized)\<close>. \<^verbatim>\<open>NT(self.start)\<close> has the string of
  \<^verbatim>\<open>self.start\<close>, so it is the same key.
\<close>

definition accepts :: "parser \<Rightarrow> cyk_table \<Rightarrow> string list \<Rightarrow> bool" where
  "accepts p table tokenized =
     (\<exists>r \<in> set (table (0, int (length tokenized) - 1)). lhs r = start p)"

definition parse :: "(string \<Rightarrow> regex) \<Rightarrow> parser \<Rightarrow> string list \<Rightarrow> error + lark_tree" where
  "parse re_compile p tokenized =
     (case Parse re_compile tokenized (parser_grammar p) of
        Inl e \<Rightarrow> Inl e
      | Inr (table, trees) \<Rightarrow>
          if \<not> accepts p table tokenized then Inl ParseError
          else (case trees (0, int (length tokenized) - 1) (start p) of
                  None \<Rightarrow> Inl KeyError
                | Some t \<Rightarrow>
                    (case RevertCnf t of Inl e \<Rightarrow> Inl e | Inr node \<Rightarrow> ToTree p node)))"

section \<open>Notions used to state the properties\<close>

text \<open>A rule with every weight and alias in it erased, also in its skip chain.\<close>

fun erase :: "rule \<Rightarrow> rule" where
  "erase (Rule l r w a) = Rule l r 0 []"
| "erase (UnitSkipRule l r sk w a) = UnitSkipRule l r (map erase sk) 0 []"

text \<open>
  The unit rules of a grammar as a relation on symbols: \<open>(A, B)\<close> for a rule \<open>A \<rightarrow> B\<close>
  whose rhs is the single non-terminal \<open>B\<close>; and the multiset of the targets of the unit
  rules in a list of rules.
\<close>

definition unit_edges :: "grammar \<Rightarrow> (symbol \<times> symbol) set" where
  "unit_edges g = set (map (\<lambda>r. (lhs r, hd (rhs r))) (filter is_nt_unit_rule (rules g)))"

definition unit_targets :: "rule list \<Rightarrow> symbol multiset" where
  "unit_targets rs = mset (map (\<lambda>r. hd (rhs r)) (filter is_nt_unit_rule rs))"

section \<open>Properties\<close>

subsection \<open>Rule equality\<close>

lemma rule_eq_erase: "rule_eq r1 r2 \<longleftrightarrow> erase r1 = erase r2"
proof (induction r1 r2 rule: rule_eq.induct)
  case (4 l r sk w a l' r' sk' w' a')
  have "list_all2 rule_eq sk sk' \<longleftrightarrow> list_all2 (\<lambda>x y. erase x = erase y) sk sk'"
    by (rule list.rel_cong) (use 4 in auto)
  also have "\<dots> \<longleftrightarrow> map erase sk = map erase sk'"
    by (simp add: list.rel_map list.rel_eq [symmetric])
  finally show ?case by simp
qed simp_all

lemma rule_eq_sym: "rule_eq r1 r2 = rule_eq r2 r1"
  by (auto simp: rule_eq_erase)

lemma rule_eq_refl: "rule_eq r r"
  by (simp add: rule_eq_erase)

text \<open>
  C9, as the code has it: two rules are equal iff their lhs and their rhs are equal, both
  are plain rules or both are unit-skip rules, and (for unit-skip rules) their lists of
  skipped rules are equal element by element; equality holds iff the two rules are the
  same once every weight and alias is erased, so weight and alias never affect it; and
  equality is symmetric.
\<close>

theorem rule_eq_characterisation:
  "(rule_eq r1 r2 \<longleftrightarrow>
      lhs r1 = lhs r2 \<and> rhs r1 = rhs r2 \<and>
      isinstance_UnitSkipRule r1 = isinstance_UnitSkipRule r2 \<and>
      list_all2 rule_eq (skip_chain r1) (skip_chain r2))
   \<and> (rule_eq r1 r2 \<longleftrightarrow> erase r1 = erase r2)
   \<and> (rule_eq r1 r2 \<longleftrightarrow> rule_eq r2 r1)"
proof (intro conjI)
  show "rule_eq r1 r2 \<longleftrightarrow>
      lhs r1 = lhs r2 \<and> rhs r1 = rhs r2 \<and>
      isinstance_UnitSkipRule r1 = isinstance_UnitSkipRule r2 \<and>
      list_all2 rule_eq (skip_chain r1) (skip_chain r2)"
    by (cases r1; cases r2) auto
  show "rule_eq r1 r2 \<longleftrightarrow> erase r1 = erase r2"
    by (rule rule_eq_erase)
  show "rule_eq r1 r2 \<longleftrightarrow> rule_eq r2 r1"
    by (rule rule_eq_sym)
qed

theorem rule_eq_lhs_rhs_counterexample:
  "\<not> (rule_eq (UnitSkipRule (NT ''A'') [T ''a''] [Rule (NT ''B'') [T ''a''] 0 ''b''] 0 ''u'')
              (Rule (NT ''A'') [T ''a''] 0 ''u'')
       \<longleftrightarrow> lhs (UnitSkipRule (NT ''A'') [T ''a''] [Rule (NT ''B'') [T ''a''] 0 ''b''] 0 ''u'')
             = lhs (Rule (NT ''A'') [T ''a''] 0 ''u'')
           \<and> rhs (UnitSkipRule (NT ''A'') [T ''a''] [Rule (NT ''B'') [T ''a''] 0 ''b''] 0 ''u'')
             = rhs (Rule (NT ''A'') [T ''a''] 0 ''u''))"
  by simp

subsection \<open>Unit-skip rules\<close>

lemma mset_rules_Grammar: "mset (rules (Grammar rs)) = mset rs"
  by (simp add: Grammar_def)

lemma set_rules_Grammar: "set (rules (Grammar rs)) = set rs"
  by (simp add: Grammar_def)

text \<open>
  C6: removing the unit rule \<open>A \<rightarrow> B\<close> keeps the rules that differ from it and adds, for
  every rule \<open>B \<rightarrow> \<gamma>\<close> of the grammar, the rule built by \<open>BuildUnitSkipRule\<close>: a
  unit-skip rule \<open>A \<rightarrow> \<gamma>\<close> with the alias of the unit rule, whose weight is the sum of
  the two weights and whose list of skipped rules is the skip chain of the unit rule,
  then \<open>B \<rightarrow> \<gamma>\<close>, then the skip chain of \<open>B \<rightarrow> \<gamma>\<close>.
\<close>

theorem RemoveUnitRule_replacements:
  assumes "rhs unit_rule = [b]"
  shows "(\<exists>g'. RemoveUnitRule g unit_rule = Inr g' \<and>
           mset (rules g') =
             mset (filter (\<lambda>x. \<not> rule_eq x unit_rule) (rules g))
             + image_mset (BuildUnitSkipRule unit_rule) (mset (filter (\<lambda>x. lhs x = b) (rules g))))
    \<and> isinstance_UnitSkipRule (BuildUnitSkipRule unit_rule target_rule)
    \<and> lhs (BuildUnitSkipRule unit_rule target_rule) = lhs unit_rule
    \<and> rhs (BuildUnitSkipRule unit_rule target_rule) = rhs target_rule
    \<and> weight (BuildUnitSkipRule unit_rule target_rule) = weight unit_rule + weight target_rule
    \<and> rule_alias (BuildUnitSkipRule unit_rule target_rule) = rule_alias unit_rule
    \<and> skipped_rules (BuildUnitSkipRule unit_rule target_rule)
           = skip_chain unit_rule @ [target_rule] @ skip_chain target_rule"
  using assms
  by (simp add: RemoveUnitRule_def BuildUnitSkipRule_def mset_rules_Grammar)

theorem RemoveUnitRule_replacements_witness:
  "rhs (Rule (NT ''A'') [NT ''B''] 2 ''ab'') = [NT ''B'']
   \<and> (\<exists>g'. RemoveUnitRule (Grammar [Rule (NT ''A'') [NT ''B''] 2 ''ab'', Rule (NT ''B'') [T ''b''] 3 ''bb''])
              (Rule (NT ''A'') [NT ''B''] 2 ''ab'') = Inr g')
   \<and> weight (BuildUnitSkipRule (Rule (NT ''A'') [NT ''B''] 2 ''ab'') (Rule (NT ''B'') [T ''b''] 3 ''bb'')) = 5
   \<and> skipped_rules (BuildUnitSkipRule (Rule (NT ''A'') [NT ''B''] 2 ''ab'') (Rule (NT ''B'') [T ''b''] 3 ''bb''))
       = [Rule (NT ''B'') [T ''b''] 3 ''bb'']"
proof -
  have h: "rhs (Rule (NT ''A'') [NT ''B''] 2 ''ab'') = [NT ''B'']" by simp
  note t = RemoveUnitRule_replacements [OF h,
      of "Grammar [Rule (NT ''A'') [NT ''B''] 2 ''ab'', Rule (NT ''B'') [T ''b''] 3 ''bb'']"
         "Rule (NT ''B'') [T ''b''] 3 ''bb''"]
  from t have "\<exists>g'. RemoveUnitRule (Grammar [Rule (NT ''A'') [NT ''B''] 2 ''ab'', Rule (NT ''B'') [T ''b''] 3 ''bb''])
              (Rule (NT ''A'') [NT ''B''] 2 ''ab'') = Inr g'"
    by blast
  moreover from t have "weight (BuildUnitSkipRule (Rule (NT ''A'') [NT ''B''] 2 ''ab'') (Rule (NT ''B'') [T ''b''] 3 ''bb'')) = 5"
    by simp
  moreover from t have "skipped_rules (BuildUnitSkipRule (Rule (NT ''A'') [NT ''B''] 2 ''ab'') (Rule (NT ''B'') [T ''b''] 3 ''bb''))
       = [Rule (NT ''B'') [T ''b''] 3 ''bb'']"
    by simp
  ultimately show ?thesis using h by blast
qed

subsection \<open>TERM\<close>

lemma term_filter_mset:
  assumes "r \<in> set (rules g)"
  shows "mset (filter (\<lambda>k. k \<in> set (rhs r)) (all_t g)) = mset (remdups (filter isinstance_T (rhs r)))"
proof -
  have "distinct (filter (\<lambda>k. k \<in> set (rhs r)) (all_t g))"
    by (simp add: all_t_def)
  moreover have "set (filter (\<lambda>k. k \<in> set (rhs r)) (all_t g)) = set (remdups (filter isinstance_T (rhs r)))"
    using assms by (auto simp: all_t_def)
  ultimately show ?thesis
    using set_eq_iff_mset_eq_distinct [of "filter (\<lambda>k. k \<in> set (rhs r)) (all_t g)" "remdups (filter isinstance_T (rhs r))"]
    by simp
qed

lemma Term_step_mset:
  assumes r: "r \<in> set (rules g)"
  shows "mset (Term_step (all_t g) r) =
     (if needs_term r
      then {#Rule (lhs r) (map (\<lambda>x. if isinstance_T x then NT (''__T_'' @ symbol_str x) else x) (rhs r))
               (weight r) (rule_alias r)#}
           + mset (map (\<lambda>t. Rule (NT (''__T_'' @ symbol_str t)) [t] 0 ''Term'')
                     (remdups (filter isinstance_T (rhs r))))
      else {#r#})"
proof -
  have "mset (map t_rule (filter (\<lambda>k. k \<in> set (rhs r)) (all_t g)))
        = mset (map t_rule (remdups (filter isinstance_T (rhs r))))"
    using term_filter_mset [OF r] by (metis mset_map)
  then have "mset (map t_rule (filter (\<lambda>k. k \<in> set (rhs r)) (all_t g)))
        = mset (map (\<lambda>t. Rule (NT (''__T_'' @ symbol_str t)) [t] 0 ''Term'') (remdups (filter isinstance_T (rhs r))))"
    by (simp add: t_rule_def [abs_def])
  then show ?thesis
    by (cases "needs_term r") (simp_all add: Term_step_def t_rule_def del: mset_map)
qed

text \<open>
  C5, as the code has it: \<open>Term g\<close> holds, for every rule of \<open>g\<close> whose rhs is longer
  than one symbol and contains a terminal, the rule with each terminal \<open>t\<close> of its rhs
  replaced by the non-terminal \<open>__T_t\<close>, together with one copy of the unit rule
  \<open>__T_t \<rightarrow> t\<close> (weight 0, alias \<open>Term\<close>) for each distinct terminal of that rhs; every
  other rule of \<open>g\<close>, so every rule whose rhs has length 1, is in \<open>Term g\<close> unchanged;
  and \<open>Term g\<close> holds nothing else. The unit rule of a terminal is therefore added once
  for every rewritten rule in which the terminal occurs.
\<close>

theorem Term_rules:
  "mset (rules (Term g)) =
     (\<Sum>r\<leftarrow>rules g.
        if needs_term r
        then {#Rule (lhs r) (map (\<lambda>x. if isinstance_T x then NT (''__T_'' @ symbol_str x) else x) (rhs r))
                 (weight r) (rule_alias r)#}
             + mset (map (\<lambda>t. Rule (NT (''__T_'' @ symbol_str t)) [t] 0 ''Term'')
                       (remdups (filter isinstance_T (rhs r))))
        else {#r#})"
proof -
  have "mset (rules (Term g)) = (\<Sum>r\<leftarrow>rules g. mset (Term_step (all_t g) r))"
    by (simp add: Term_def mset_rules_Grammar mset_concat comp_def)
  also have "\<dots> = (\<Sum>r\<leftarrow>rules g.
        if needs_term r
        then {#Rule (lhs r) (map (\<lambda>x. if isinstance_T x then NT (''__T_'' @ symbol_str x) else x) (rhs r))
                 (weight r) (rule_alias r)#}
             + mset (map (\<lambda>t. Rule (NT (''__T_'' @ symbol_str t)) [t] 0 ''Term'')
                       (remdups (filter isinstance_T (rhs r))))
        else {#r#})"
    by (rule arg_cong [where f = sum_list], rule map_cong [OF refl], rule Term_step_mset)
  finally show ?thesis .
qed

theorem Term_unit_rule_twice_counterexample:
  "count_list
     (rules (Term (Grammar [Rule (NT ''S'') [T ''a'', NT ''B''] 0 ''r1'',
                            Rule (NT ''C'') [T ''a'', NT ''D''] 0 ''r2''])))
     (Rule (NT ''__T_a'') [T ''a''] 0 ''Term'') = 2"
  by code_simp

subsection \<open>Validation of the normal form\<close>

lemma CnfWrapper_loop_ok:
  "list_all cnf_rule rs \<Longrightarrow> \<exists>acc'. CnfWrapper_loop rs acc = Inr acc'"
proof (induction rs arbitrary: acc)
  case Nil then show ?case by simp
next
  case (Cons r rs)
  obtain tr ntr where acc: "acc = (tr, ntr)" by (cases acc)
  from Cons.prems have r: "cnf_rule r" and rs: "list_all cnf_rule rs" by simp_all
  from r show ?case unfolding acc
    using Cons.IH [OF rs]
    by (auto simp: cnf_rule_def split: list.splits)
qed

lemma CnfWrapper_loop_bad:
  "\<not> list_all cnf_rule rs \<Longrightarrow> CnfWrapper_loop rs acc = Inl AssertionError"
proof (induction rs arbitrary: acc)
  case Nil then show ?case by simp
next
  case (Cons r rs)
  obtain tr ntr where acc: "acc = (tr, ntr)" by (cases acc)
  show ?case
  proof (cases "cnf_rule r")
    case True
    with Cons.prems have "\<not> list_all cnf_rule rs" by simp
    from Cons.IH [OF this] True show ?thesis unfolding acc
      by (auto simp: cnf_rule_def split: list.splits)
  next
    case False
    then show ?thesis unfolding acc
      by (auto simp: cnf_rule_def length_Suc_conv split: list.splits)
  qed
qed

text \<open>
  C7: constructing a \<open>CnfWrapper\<close> succeeds iff every rule has a non-terminal lhs and a
  rhs that is one terminal or two non-terminals; on every other grammar it fails with an
  assertion failure.
\<close>

theorem CnfWrapper_succeeds_iff:
  "((\<exists>w. CnfWrapper g = Inr w) \<longleftrightarrow> list_all cnf_rule (rules g))
   \<and> (CnfWrapper g = Inl AssertionError \<longleftrightarrow> \<not> list_all cnf_rule (rules g))"
proof (cases "list_all cnf_rule (rules g)")
  case True
  from CnfWrapper_loop_ok [OF this, of "([], [])"] True show ?thesis
    by (auto simp: CnfWrapper_def)
next
  case False
  from CnfWrapper_loop_bad [OF this, of "([], [])"] False show ?thesis
    by (auto simp: CnfWrapper_def)
qed

subsection \<open>The empty input\<close>

lemma Parse_empty: "Parse re_compile [] g = Inr (\<lambda>sp. [], \<lambda>sp. Map.empty)"
  by (simp add: Parse_def Parse_base_def)

text \<open>
  C10: on the empty token sequence \<open>parse\<close> raises \<open>ParseError\<close>, whatever the grammar
  and the start symbol of the parser are.
\<close>

theorem parse_empty_raises_ParseError:
  "parse re_compile p [] = Inl ParseError"
  by (simp add: parse_def Parse_empty accepts_def)

subsection \<open>UNIT\<close>

lemma unit_targets_append: "unit_targets (xs @ ys) = unit_targets xs + unit_targets ys"
  by (simp add: unit_targets_def)

lemma unit_targets_mset_cong: "mset xs = mset ys \<Longrightarrow> unit_targets xs = unit_targets ys"
proof -
  assume "mset xs = mset ys"
  then have "image_mset (\<lambda>r. hd (rhs r)) (filter_mset is_nt_unit_rule (mset xs))
           = image_mset (\<lambda>r. hd (rhs r)) (filter_mset is_nt_unit_rule (mset ys))"
    by simp
  then show ?thesis by (simp add: unit_targets_def)
qed

lemma unit_targets_sort: "unit_targets (sort_key f rs) = unit_targets rs"
  by (rule unit_targets_mset_cong) simp

lemma unit_targets_split:
  "unit_targets rs = unit_targets (filter (\<lambda>x. \<not> P x) rs) + unit_targets (filter P rs)"
  by (induction rs) (simp_all add: unit_targets_def del: mset_filter mset_map)

lemma set_unit_targets:
  "set_mset (unit_targets rs) = (\<lambda>r. hd (rhs r)) ` {r \<in> set rs. is_nt_unit_rule r}"
  by (simp add: unit_targets_def)

lemma is_nt_unit_rule_Build [simp]:
  "is_nt_unit_rule (BuildUnitSkipRule u t) = is_nt_unit_rule t"
  by (simp add: is_nt_unit_rule_def BuildUnitSkipRule_def)

lemma rhs_Build [simp]: "rhs (BuildUnitSkipRule u t) = rhs t"
  by (simp add: BuildUnitSkipRule_def)

lemma lhs_Build [simp]: "lhs (BuildUnitSkipRule u t) = lhs u"
  by (simp add: BuildUnitSkipRule_def)

lemma rule_eq_rhs: "rule_eq x r \<Longrightarrow> rhs x = rhs r"
  by (cases x; cases r) auto

lemma rule_eq_lhs: "rule_eq x r \<Longrightarrow> lhs x = lhs r"
  by (cases x; cases r) auto

lemma GetAnyNtUnitRule_Some:
  "GetAnyNtUnitRule g = Some r \<Longrightarrow> r \<in> set (rules g) \<and> is_nt_unit_rule r"
  unfolding GetAnyNtUnitRule_def by (auto simp: find_Some_iff)

lemma GetAnyNtUnitRule_None:
  "GetAnyNtUnitRule g = None \<longleftrightarrow> (\<forall>r \<in> set (rules g). \<not> is_nt_unit_rule r)"
  unfolding GetAnyNtUnitRule_def by (auto simp: find_None_iff)

lemma is_nt_unit_rule_rhs: "is_nt_unit_rule r \<Longrightarrow> rhs r = [hd (rhs r)]"
  by (auto simp: is_nt_unit_rule_def split: list.splits)

lemma RemoveUnitRule_unit:
  assumes "is_nt_unit_rule r"
  shows "RemoveUnitRule g r =
     Inr (Grammar (filter (\<lambda>x. \<not> rule_eq x r) (rules g)
                   @ map (BuildUnitSkipRule r) (filter (\<lambda>x. lhs x = hd (rhs r)) (rules g))))"
  using is_nt_unit_rule_rhs [OF assms]
  by (cases "rhs r") (auto simp: RemoveUnitRule_def)

lemma unit_step:
  assumes r: "r \<in> set (rules g)" "is_nt_unit_rule r"
  shows "\<exists>g'. RemoveUnitRule g r = Inr g'
          \<and> (\<exists>I J K. unit_targets (rules g) = I + J \<and> unit_targets (rules g') = I + K
                \<and> J \<noteq> {#} \<and> (\<forall>k \<in># K. \<exists>j \<in># J. (j, k) \<in> unit_edges g))
          \<and> unit_edges g' \<subseteq> (unit_edges g)\<^sup>+"
proof -
  let ?b = "hd (rhs r)"
  let ?keep = "filter (\<lambda>x. \<not> rule_eq x r) (rules g)"
  let ?refs = "filter (\<lambda>x. lhs x = ?b) (rules g)"
  let ?g' = "Grammar (?keep @ map (BuildUnitSkipRule r) ?refs)"
  let ?I = "unit_targets ?keep"
  let ?J = "unit_targets (filter (\<lambda>x. rule_eq x r) (rules g))"
  let ?K = "unit_targets (map (BuildUnitSkipRule r) ?refs)"
  have step: "RemoveUnitRule g r = Inr ?g'"
    by (rule RemoveUnitRule_unit [OF r(2)])
  have 1: "unit_targets (rules g) = ?I + ?J"
    by (rule unit_targets_split)
  have 2: "unit_targets (rules ?g') = ?I + ?K"
    by (simp add: Grammar_def unit_targets_sort unit_targets_append)
  have Jset: "set_mset ?J = {?b}"
  proof -
    have a: "r \<in> {x \<in> set (filter (\<lambda>x. rule_eq x r) (rules g)). is_nt_unit_rule x}"
      using r by (simp add: rule_eq_erase)
    have b: "hd (rhs x) = ?b" if "rule_eq x r" for x
      using rule_eq_rhs [OF that] by simp
    have "(\<lambda>r. hd (rhs r)) ` {x \<in> set (filter (\<lambda>x. rule_eq x r) (rules g)). is_nt_unit_rule x} = {?b}"
    proof (rule equalityI)
      show "(\<lambda>r. hd (rhs r)) ` {x \<in> set (filter (\<lambda>x. rule_eq x r) (rules g)). is_nt_unit_rule x} \<subseteq> {?b}"
        using b by auto
      show "{?b} \<subseteq> (\<lambda>r. hd (rhs r)) ` {x \<in> set (filter (\<lambda>x. rule_eq x r) (rules g)). is_nt_unit_rule x}"
        using a by blast
    qed
    then show ?thesis by (simp only: set_unit_targets)
  qed
  then have 3: "?J \<noteq> {#}" by auto
  have Kedge: "(?b, k) \<in> unit_edges g" if "k \<in># ?K" for k
  proof -
    from that obtain x where x: "x \<in> set (map (BuildUnitSkipRule r) ?refs)" "is_nt_unit_rule x"
      "k = hd (rhs x)"
      unfolding set_unit_targets by blast
    then obtain ref where ref: "ref \<in> set (rules g)" "lhs ref = ?b" "is_nt_unit_rule ref"
      "k = hd (rhs ref)"
      by auto
    then show ?thesis unfolding unit_edges_def by force
  qed
  have 4: "\<forall>k \<in># ?K. \<exists>j \<in># ?J. (j, k) \<in> unit_edges g"
    using Kedge Jset by auto
  have 5: "unit_edges ?g' \<subseteq> (unit_edges g)\<^sup>+"
  proof
    fix e assume "e \<in> unit_edges ?g'"
    then obtain x where x: "x \<in> set ?keep \<union> set (map (BuildUnitSkipRule r) ?refs)"
      "is_nt_unit_rule x" "e = (lhs x, hd (rhs x))"
      unfolding unit_edges_def by (auto simp: Grammar_def)
    show "e \<in> (unit_edges g)\<^sup>+"
    proof (cases "x \<in> set ?keep")
      case True
      with x have "e \<in> unit_edges g" unfolding unit_edges_def by force
      then show ?thesis by (cases e) (simp add: r_into_trancl')
    next
      case False
      with x obtain ref where ref: "ref \<in> set (rules g)" "lhs ref = ?b" "x = BuildUnitSkipRule r ref"
        by auto
      with x have "is_nt_unit_rule ref" by simp
      with ref have "(?b, hd (rhs ref)) \<in> unit_edges g" unfolding unit_edges_def by force
      moreover have "(lhs r, ?b) \<in> unit_edges g" using r unfolding unit_edges_def by force
      ultimately have "(lhs r, hd (rhs ref)) \<in> (unit_edges g)\<^sup>+" by auto
      with x ref show ?thesis by simp
    qed
  qed
  from step 1 2 3 4 5 show ?thesis by blast
qed

lemma Unit_terminates_aux:
  assumes fin: "finite E" and acyc: "acyclic E"
  shows "unit_edges g \<subseteq> E\<^sup>+ \<Longrightarrow>
         \<exists>g'. Unit g = Some (Inr g') \<and> (\<forall>r \<in> set (rules g'). \<not> is_nt_unit_rule r)"
proof -
  let ?R = "(E\<^sup>+)\<inverse>"
  have "acyclic (E\<^sup>+)" using acyc by (simp add: acyclic_def)
  with fin have "wf ?R" by (intro finite_acyclic_wf_converse) simp_all
  then have wf: "wf (inv_image (mult ?R) (\<lambda>g. unit_targets (rules g)))"
    by (intro wf_inv_image wf_mult)
  show "unit_edges g \<subseteq> E\<^sup>+ \<Longrightarrow> ?thesis"
    using wf
  proof (induction g rule: wf_induct_rule)
    case (less g)
    show ?case
    proof (cases "GetAnyNtUnitRule g")
      case None
      have "Unit g = Some (Inr g)"
        by (subst Unit.simps) (simp add: None)
      moreover from None have "\<forall>r \<in> set (rules g). \<not> is_nt_unit_rule r"
        by (simp add: GetAnyNtUnitRule_None)
      ultimately show ?thesis by blast
    next
      case (Some r)
      from GetAnyNtUnitRule_Some [OF Some] have r: "r \<in> set (rules g)" "is_nt_unit_rule r"
        by simp_all
      from unit_step [OF r] obtain g' I J K where
        step: "RemoveUnitRule g r = Inr g'"
        and M: "unit_targets (rules g) = I + J" "unit_targets (rules g') = I + K"
               "J \<noteq> {#}" "\<forall>k \<in># K. \<exists>j \<in># J. (j, k) \<in> unit_edges g"
        and E: "unit_edges g' \<subseteq> (unit_edges g)\<^sup>+"
        by blast
      from M(4) less.prems have "\<forall>k \<in># K. \<exists>j \<in># J. (k, j) \<in> ?R"
        by blast
      from one_step_implies_mult [OF M(3) this, of I]
      have dec: "(g', g) \<in> inv_image (mult ?R) (\<lambda>g. unit_targets (rules g))"
        by (simp add: M)
      have "(unit_edges g)\<^sup>+ \<subseteq> E\<^sup>+"
      proof
        fix p assume "p \<in> (unit_edges g)\<^sup>+"
        from trancl_mono [OF this less.prems] show "p \<in> E\<^sup>+" by simp
      qed
      with E have "unit_edges g' \<subseteq> E\<^sup>+" by blast
      from less.IH [OF dec this] show ?thesis
        by (subst Unit.simps) (simp add: Some step)
    qed
  qed
qed

text \<open>
  C8: when the unit rules of a grammar form no cycle among the non-terminals, the loop of
  \<open>Unit\<close> ends (without an error) and its result has no rule whose rhs is a single
  non-terminal.
\<close>

theorem Unit_terminates:
  assumes "acyclic (unit_edges g)"
  shows "\<exists>g'. Unit g = Some (Inr g') \<and> (\<forall>r \<in> set (rules g'). \<not> is_nt_unit_rule r)"
proof -
  have "finite (unit_edges g)" by (simp add: unit_edges_def)
  moreover have "unit_edges g \<subseteq> (unit_edges g)\<^sup>+" by auto
  ultimately show ?thesis using Unit_terminates_aux [of "unit_edges g" g] assms by blast
qed



theorem Unit_terminates_witness:
  "acyclic (unit_edges (Grammar [Rule (NT ''A'') [NT ''B''] 1 ''ab'',
                                Rule (NT ''B'') [NT ''C''] 2 ''bc'',
                                Rule (NT ''C'') [T ''c''] 3 ''c'']))
   \<and> (\<exists>g'. Unit (Grammar [Rule (NT ''A'') [NT ''B''] 1 ''ab'',
                          Rule (NT ''B'') [NT ''C''] 2 ''bc'',
                          Rule (NT ''C'') [T ''c''] 3 ''c'']) = Some (Inr g')
           \<and> GetAnyNtUnitRule g' = None)"
proof -
  have h: "acyclic (unit_edges (Grammar [Rule (NT ''A'') [NT ''B''] 1 ''ab'',
                                Rule (NT ''B'') [NT ''C''] 2 ''bc'',
                                Rule (NT ''C'') [T ''c''] 3 ''c'']))"
    by code_simp
  from Unit_terminates [OF h] h show ?thesis
    by (simp add: GetAnyNtUnitRule_None)
qed

subsection \<open>Terminal matching\<close>

lemma backtrack_sound:
  "rest \<in> set (backtrack r s) \<Longrightarrow> \<exists>u. s = u @ rest \<and> full_match r u"
proof (induction r s arbitrary: rest rule: backtrack.induct)
  case (1 c s)
  then show ?case
    by (cases s) (auto split: if_splits intro: fm_Lit)
next
  case (2 a b s)
  from "2.prems" obtain mid where mid: "mid \<in> set (backtrack a s)" "rest \<in> set (backtrack b mid)"
    by auto
  from "2.IH"(1) [OF mid(1)] obtain u where u: "s = u @ mid" "full_match a u" by blast
  from "2.IH"(2) [OF mid(1) mid(2)] obtain v where v: "mid = v @ rest" "full_match b v" by blast
  from u v have "s = (u @ v) @ rest" "full_match (Seq a b) (u @ v)"
    by (auto intro: fm_Seq)
  then show ?case by blast
next
  case (3 a b s)
  from "3.prems" have "rest \<in> set (backtrack a s) \<or> rest \<in> set (backtrack b s)" by simp
  then show ?case
  proof
    assume "rest \<in> set (backtrack a s)"
    from "3.IH"(1) [OF this] show ?thesis by (blast intro: fm_AltL)
  next
    assume "rest \<in> set (backtrack b s)"
    from "3.IH"(2) [OF this] show ?thesis by (blast intro: fm_AltR)
  qed
next
  case (4 a s)
  from "4.prems" have "rest \<in> set (concat (map (\<lambda>s'. (if length s' < length s then backtrack (Plus a) s' else []) @ [s'])
                 (backtrack a s)))"
    by (subst (asm) backtrack.simps(4))
  then obtain mid where mid: "mid \<in> set (backtrack a s)"
    and alt: "rest = mid \<or> (length mid < length s \<and> rest \<in> set (backtrack (Plus a) mid))"
    by (auto split: if_splits)
  from "4.IH"(1) [OF mid] obtain u where u: "s = u @ mid" "full_match a u" by blast
  from alt show ?case
  proof
    assume "rest = mid"
    with u show ?thesis by (blast intro: fm_Plus1)
  next
    assume *: "length mid < length s \<and> rest \<in> set (backtrack (Plus a) mid)"
    from "4.IH"(2) [OF mid] * obtain v where v: "mid = v @ rest" "full_match (Plus a) v" by blast
    from u v have "s = (u @ v) @ rest" "full_match (Plus a) (u @ v)"
      by (auto intro: fm_PlusS)
    then show ?thesis by blast
  qed
qed

lemma T_match_sound:
  "T_match re_compile t s \<Longrightarrow> full_match (re_compile (symbol_str t)) s"
proof -
  assume m: "T_match re_compile t s"
  then obtain rest rs where bt: "backtrack (re_compile (symbol_str t)) s = rest # rs"
    and len: "length s - length rest = length s"
    by (auto simp: T_match_def re_match_def split: list.splits)
  from bt have "rest \<in> set (backtrack (re_compile (symbol_str t)) s)" by simp
  from backtrack_sound [OF this] obtain u where u: "s = u @ rest" "full_match (re_compile (symbol_str t)) u"
    by blast
  from u(1) len have "rest = []" by (cases rest) auto
  with u show ?thesis by simp
qed

text \<open>
  C4: a terminal should match a token text iff its pattern matches the whole text. With
  the pattern \<open>a|ab\<close> and the text \<open>ab\<close> the pattern matches the whole text,
  through its second branch, but \<open>T.match\<close> answers false: the matcher returns the
  match of the first branch, which covers one character only.
\<close>

theorem T_match_prioritised_alternation:
  "full_match (Alt (Lit CHR ''a'') (Seq (Lit CHR ''a'') (Lit CHR ''b''))) ''ab''
   \<and> \<not> T_match (\<lambda>p. Alt (Lit CHR ''a'') (Seq (Lit CHR ''a'') (Lit CHR ''b''))) (T ''a|ab'') ''ab''"
proof
  show "full_match (Alt (Lit CHR ''a'') (Seq (Lit CHR ''a'') (Lit CHR ''b''))) ''ab''"
    using fm_AltR [OF fm_Seq [OF fm_Lit fm_Lit]] by simp
  show "\<not> T_match (\<lambda>p. Alt (Lit CHR ''a'') (Seq (Lit CHR ''a'') (Lit CHR ''b''))) (T ''a|ab'') ''ab''"
    by (simp add: T_match_def re_match_def)
qed

end
